theory Spec2Isabelle
  imports Complex_Main "HOL-Library.AList" "HOL-Library.Char_ord" "HOL-Library.List_Lexorder"
begin

section \<open>Exceptions and array indexing\<close>

text \<open>
  The two viewers of \<^verbatim>\<open>helita/sim/rh15d_vis.py\<close> read slices of the arrays held by a
  simulation-result object, register controls with the widget framework and mutate a
  figure from the callbacks of these controls.  In this model
  \<^item> a floating-point number is an exact real, so rounding errors, infinities and NaN are
    not represented (a quotient is meaningful where the divisor is not zero);
  \<^item> a raised exception is the left summand of a sum type, and the figure a callback
    has partly redrawn before raising is not returned;
  \<^item> an n-dimensional array is a nested list, rectangular in every object the program
    can receive, and indexed as the array library does it;
  \<^item> the functions the module imports (control abbreviations of \<^verbatim>\<open>interact\<close>,
    \<^verbatim>\<open>cumtrapz\<close>, \<^verbatim>\<open>interp1d\<close>, \<^verbatim>\<open>around\<close>) are written out as their libraries document
    them, and the Planck function of the package's own \<^verbatim>\<open>utils/utilsmath.py\<close> is a
    parameter.
\<close>

datatype py_error = IndexError | AttributeError | ValueError | UnboundLocalError

definition ebind :: "py_error + 'a \<Rightarrow> ('a \<Rightarrow> py_error + 'b) \<Rightarrow> py_error + 'b" where
  "ebind m f = (case m of Inl e \<Rightarrow> Inl e | Inr v \<Rightarrow> f v)"

fun emap :: "('a \<Rightarrow> py_error + 'b) \<Rightarrow> 'a list \<Rightarrow> py_error + 'b list" where
  "emap f [] = Inr []"
| "emap f (x # xs) = ebind (f x) (\<lambda>v. ebind (emap f xs) (\<lambda>vs. Inr (v # vs)))"

definition np_get :: "'a list \<Rightarrow> int \<Rightarrow> py_error + 'a" where
  \<comment> \<open>\<^verbatim>\<open>a[i]\<close>: a negative index counts from the end, an index outside the axis raises.\<close>
  "np_get a i =
     (let n = int (length a); j = (if i < 0 then n + i else i)
      in if 0 \<le> j \<and> j < n then Inr (a ! nat j) else Inl IndexError)"

definition np_get2 :: "'a list list \<Rightarrow> int \<Rightarrow> int \<Rightarrow> py_error + 'a" where
  "np_get2 a i j = ebind (np_get a i) (\<lambda>b. np_get b j)"

definition np_get3 :: "'a list list list \<Rightarrow> int \<Rightarrow> int \<Rightarrow> int \<Rightarrow> py_error + 'a" where
  "np_get3 a i j k = ebind (np_get2 a i j) (\<lambda>c. np_get c k)"

definition np_col :: "'a list list list list \<Rightarrow> int \<Rightarrow> int \<Rightarrow> int \<Rightarrow> py_error + 'a list" where
  \<comment> \<open>\<^verbatim>\<open>a[x, y, :, w]\<close>\<close>
  "np_col a x y w = ebind (np_get2 a x y) (emap (\<lambda>row. np_get row w))"

definition shape3 :: "'a list list list \<Rightarrow> int \<times> int \<times> int" where
  "shape3 a =
     (int (length a),
      (case a of [] \<Rightarrow> 0 | p # _ \<Rightarrow> int (length p)),
      (case a of [] \<Rightarrow> 0 | p # _ \<Rightarrow> (case p of [] \<Rightarrow> 0 | r # _ \<Rightarrow> int (length r))))"

definition shape4 :: "'a list list list list \<Rightarrow> int \<times> int \<times> int \<times> int" where
  "shape4 a =
     (int (length a),
      (case a of [] \<Rightarrow> (0, 0, 0) | p # _ \<Rightarrow> shape3 p))"

section \<open>The result object\<close>

record atom =
  nlevel :: int
  populations :: "real list list list list"
  populations_LTE :: "real list list list list"

record atmos =
  temperature :: "real list list list"
  height_scale :: "real list list list"

record ray =
  source_function :: "real list list list list"
  Jlambda :: "real list list list list"
  chi :: "real list list list list"
  wavelength_selected :: "real list"

datatype member = AtomMember atom | OtherMember

record rh_object =
  members :: "(string \<times> member) list"
  rh_atmos :: atmos
  rh_ray :: ray

definition dir_py :: "rh_object \<Rightarrow> string list" where
  \<comment> \<open>\<^verbatim>\<open>dir(obj)\<close>: the attribute names, each once, in alphabetical order.\<close>
  "dir_py rh = sort (remdups (map fst (members rh)))"

definition getattr_atom :: "rh_object \<Rightarrow> string \<Rightarrow> py_error + atom" where
  \<comment> \<open>\<^verbatim>\<open>getattr(obj, name)\<close> followed by an attribute of an atom object.\<close>
  "getattr_atom rh name =
     (case map_of (members rh) name of
        Some (AtomMember a) \<Rightarrow> Inr a
      | _ \<Rightarrow> Inl AttributeError)"

section \<open>Strings\<close>

fun split_py :: "char \<Rightarrow> string \<Rightarrow> string list" where
  \<comment> \<open>\<^verbatim>\<open>s.split(sep)\<close> for a one-character separator.\<close>
  "split_py sep [] = [[]]"
| "split_py sep (c # cs) =
     (if c = sep then [] # split_py sep cs
      else (case split_py sep cs of w # ws \<Rightarrow> (c # w) # ws | [] \<Rightarrow> [[c]]))"

definition is_lower :: "char \<Rightarrow> bool" where
  "is_lower c = (97 \<le> (of_char c :: nat) \<and> (of_char c :: nat) \<le> 122)"

definition is_upper :: "char \<Rightarrow> bool" where
  "is_upper c = (65 \<le> (of_char c :: nat) \<and> (of_char c :: nat) \<le> 90)"

definition to_upper :: "char \<Rightarrow> char" where
  "to_upper c = (if is_lower c then char_of ((of_char c :: nat) - 32) else c)"

definition to_lower :: "char \<Rightarrow> char" where
  "to_lower c = (if is_upper c then char_of ((of_char c :: nat) + 32) else c)"

fun title_from :: "bool \<Rightarrow> string \<Rightarrow> string" where
  \<comment> \<open>\<^verbatim>\<open>str.title()\<close> on ASCII text; the flag says whether the previous character was cased.\<close>
  "title_from prev [] = []"
| "title_from prev (c # cs) =
     (if is_lower c then (if prev then c else to_upper c) # title_from True cs
      else if is_upper c then (if prev then to_lower c else c) # title_from True cs
      else c # title_from False cs)"

definition title_py :: "string \<Rightarrow> string" where
  "title_py s = title_from False s"

fun str_nat :: "nat \<Rightarrow> string" where
  "str_nat n = (if n < 10 then [char_of (48 + n)] else str_nat (n div 10) @ [char_of (48 + n mod 10)])"

declare str_nat.simps [simp del]

definition str_int :: "int \<Rightarrow> string" where
  \<comment> \<open>the \<^verbatim>\<open>%i\<close> conversion\<close>
  "str_int i = (if i < 0 then CHR ''-'' # str_nat (nat (- i)) else str_nat (nat i))"

section \<open>Controls of the widget framework\<close>

datatype abbrev =
    AFixed int
  | ATuple2 int int
  | ATuple3 int int int
  | ADict "(string \<times> string) list"
  | AList "string list"
  | ABool bool

datatype widget =
    Fixed int
  | IntSlider int int int
  | Dropdown "(string \<times> string) list"
  | Checkbox bool

definition widget_from_tuple :: "int \<Rightarrow> int \<Rightarrow> int \<Rightarrow> py_error + widget" where
  \<comment> \<open>an integer slider \<^verbatim>\<open>min, max, step\<close>; an empty range or a step below 1 is refused\<close>
  "widget_from_tuple lo hi step =
     (if step \<le> 0 \<or> hi < lo then Inl ValueError else Inr (IntSlider lo hi step))"

fun widget_from_abbrev :: "abbrev \<Rightarrow> py_error + widget" where
  \<comment> \<open>what \<^verbatim>\<open>interact\<close> makes of each keyword argument\<close>
  "widget_from_abbrev (AFixed v) = Inr (Fixed v)"
| "widget_from_abbrev (ATuple2 lo hi) = widget_from_tuple lo hi 1"
| "widget_from_abbrev (ATuple3 lo hi step) = widget_from_tuple lo hi step"
| "widget_from_abbrev (ADict kvs) = Inr (Dropdown kvs)"
| "widget_from_abbrev (AList vs) = Inr (Dropdown (map (\<lambda>v. (v, v)) vs))"
| "widget_from_abbrev (ABool b) = Inr (Checkbox b)"

fun selects :: "widget \<Rightarrow> int \<Rightarrow> bool" where
  \<comment> \<open>the integer values a user can select through a numeric control\<close>
  "selects (Fixed v) i = (i = v)"
| "selects (IntSlider lo hi step) i = (lo \<le> i \<and> i \<le> hi \<and> (i - lo) mod step = 0)"
| "selects (Dropdown kvs) i = False"
| "selects (Checkbox b) i = False"

fun interactive :: "widget \<Rightarrow> bool" where
  \<comment> \<open>\<^verbatim>\<open>fixed(v)\<close> passes its value to the callback and shows no control\<close>
  "interactive (Fixed v) = False"
| "interactive (IntSlider lo hi step) = True"
| "interactive (Dropdown kvs) = True"
| "interactive (Checkbox b) = True"

fun options :: "widget \<Rightarrow> (string \<times> string) list" where
  \<comment> \<open>label and value of each entry of a dropdown\<close>
  "options (Dropdown kvs) = kvs"
| "options (Fixed v) = []"
| "options (IntSlider lo hi step) = []"
| "options (Checkbox b) = []"

definition spatial_slider :: "int \<Rightarrow> abbrev" where
  \<comment> \<open>\<^verbatim>\<open>if N == 1: fixed(0) else: (0, N - 1)\<close>\<close>
  "spatial_slider N = (if N = 1 then AFixed 0 else ATuple2 0 (N - 1))"

section \<open>The figure\<close>

record line2d =
  xdata :: "real list"
  ydata :: "real list"

record annotation =
  ann_level :: real
  xy :: "real \<times> real"
  xytext :: "real \<times> real"

datatype title = Title string | TitleNm real

record axes =
  lines :: "line2d list"
  texts :: "annotation list"
  xlabel :: string
  ylabel :: string
  ax_title :: title
  yscale :: string

definition set_ydata :: "nat \<Rightarrow> real list \<Rightarrow> axes \<Rightarrow> py_error + axes" where
  \<comment> \<open>\<^verbatim>\<open>ax.lines[i].set_ydata(q)\<close>\<close>
  "set_ydata i q ax =
     (if i < length (lines ax)
      then Inr (ax\<lparr>lines := (lines ax)[i := (lines ax ! i)\<lparr>ydata := q\<rparr>]\<rparr>)
      else Inl IndexError)"

definition set_yscale :: "bool \<Rightarrow> axes \<Rightarrow> axes" where
  \<comment> \<open>\<^verbatim>\<open>if y_log: ax.set_yscale("log") else: ax.set_yscale("linear")\<close>\<close>
  "set_yscale y_log ax = ax\<lparr>yscale := (if y_log then ''log'' else ''linear'')\<rparr>"

section \<open>The Populations viewer\<close>

definition init_atoms :: "rh_object \<Rightarrow> string list" where
  \<comment> \<open>\<^verbatim>\<open>[a for a in dir(self.rhobj) if a[:5] == 'atom_']\<close>\<close>
  "init_atoms rh = filter (\<lambda>a. take 5 a = ''atom_'') (dir_py rh)"

definition ATOMS_of :: "string list \<Rightarrow> py_error + (string \<times> string) list" where
  \<comment> \<open>\<^verbatim>\<open>{a.split('_')[1].title(): a for a in self.atoms}\<close>: a later entry with the
      same label replaces the value of the earlier one.\<close>
  "ATOMS_of atoms =
     foldl (\<lambda>acc a. ebind acc (\<lambda>d.
              ebind (np_get (split_py (CHR ''_'') a) 1) (\<lambda>s.
              Inr (AList.update (title_py s) a d))))
           (Inr []) atoms"

definition QUANTS :: "string list" where
  "QUANTS = [''Populations'', ''LTE Populations'', ''Departure coefficients'']"

definition np_divide :: "real list \<Rightarrow> real list \<Rightarrow> py_error + real list" where
  \<comment> \<open>\<^verbatim>\<open>n / nstar\<close> on one-dimensional arrays, elementwise; an axis of length one is
      broadcast, other unequal lengths raise.\<close>
  "np_divide a b =
     (if length a = length b then Inr (map2 (/) a b)
      else if length b = 1 then Inr (map (\<lambda>u. u / hd b) a)
      else if length a = 1 then Inr (map (\<lambda>v. hd a / v) b)
      else Inl ValueError)"

definition pop_plot :: "rh_object \<Rightarrow> string \<Rightarrow> py_error + axes" where
  "pop_plot rh atom =
     ebind (getattr_atom rh atom) (\<lambda>a.
     ebind (np_get2 (height_scale (rh_atmos rh)) 0 0) (\<lambda>h.
     ebind (np_get3 (populations a) 0 0 0) (\<lambda>p.
     Inr \<lparr>lines = [\<lparr>xdata = map (\<lambda>v. v / 1000000) h, ydata = p\<rparr>],
          texts = [],
          xlabel = ''Height (Mm)'',
          ylabel = ''Populations'',
          ax_title = Title ''Level 1'',
          yscale = ''linear''\<rparr>)))"

definition pop_quantity :: "string \<Rightarrow> real list \<Rightarrow> real list \<Rightarrow> py_error + real list \<times> string" where
  \<comment> \<open>the \<^verbatim>\<open>if/elif\<close> chain on the quantity: the curve and the label of the y axis;
      with no branch taken, \<^verbatim>\<open>tmp\<close> is unbound when it is plotted.\<close>
  "pop_quantity quantity n nstar =
     (if quantity = ''Departure coefficients''
      then ebind (np_divide n nstar) (\<lambda>tmp. Inr (tmp, quantity @ '' (n / n*)''))
      else if quantity = ''Populations'' then Inr (n, quantity @ '' (m$^{-3}$)'')
      else if quantity = ''LTE Populations'' then Inr (nstar, quantity @ '' (m$^{-3}$)'')
      else Inl UnboundLocalError)"

definition pop_update_level ::
  "rh_object \<Rightarrow> axes \<Rightarrow> string \<Rightarrow> string \<Rightarrow> bool \<Rightarrow> int \<Rightarrow> int \<Rightarrow> int \<Rightarrow> py_error + axes" where
  "pop_update_level rh ax atom quantity y_log x y level =
     ebind (getattr_atom rh atom) (\<lambda>a.
     ebind (np_get3 (populations a) (level - 1) x y) (\<lambda>n.
     ebind (np_get3 (populations_LTE a) (level - 1) x y) (\<lambda>nstar.
     ebind (pop_quantity quantity n nstar) (\<lambda>(tmp, yl).
     ebind (set_ydata 0 tmp (ax\<lparr>ylabel := yl\<rparr>)) (\<lambda>ax1.
     Inr (set_yscale y_log
           (ax1\<lparr>ax_title := Title (''Level '' @ str_int level @ '', x='' @ str_int x
                                    @ '', y='' @ str_int y)\<rparr>)))))))"

definition pop_update ::
  "rh_object \<Rightarrow> axes \<Rightarrow> string \<Rightarrow> string \<Rightarrow> bool \<Rightarrow> int \<Rightarrow> int \<Rightarrow> py_error + widget \<times> axes" where
  \<comment> \<open>the outer callback: it registers the level control of the selected species, whose
      callback runs at once with the default level 1.\<close>
  "pop_update rh ax atom quantity y_log x y =
     ebind (getattr_atom rh atom) (\<lambda>a.
     let NLEVEL = nlevel a in
     ebind (widget_from_abbrev (ATuple2 1 NLEVEL)) (\<lambda>level_w.
     ebind (pop_update_level rh ax atom quantity y_log x y 1) (\<lambda>ax1.
     Inr (level_w, ax1))))"

record pop_viewer =
  p_atoms :: "string list"
  p_atom_w :: widget
  p_quantity_w :: widget
  p_y_log_w :: widget
  p_x_w :: widget
  p_y_w :: widget
  p_level_w :: widget
  p_ax :: axes

definition pop_display :: "rh_object \<Rightarrow> py_error + pop_viewer" where
  \<comment> \<open>\<^verbatim>\<open>Populations.__init__\<close> and \<^verbatim>\<open>Populations.display\<close>; \<^verbatim>\<open>interact\<close> builds the
      controls and calls the callback with their initial values.\<close>
  "pop_display rh =
     (let atoms = init_atoms rh in
      ebind (ATOMS_of atoms) (\<lambda>ATOMS.
      ebind (np_get atoms 0) (\<lambda>a0.
      ebind (getattr_atom rh a0) (\<lambda>first_atom.
      let NLEVEL = nlevel first_atom in
      (case shape3 (temperature (rh_atmos rh)) of (NX, NY, NZ) \<Rightarrow>
      let xslider = spatial_slider NX;
          yslider = spatial_slider NY in
      ebind (pop_plot rh a0) (\<lambda>ax.
      ebind (widget_from_abbrev (ADict ATOMS)) (\<lambda>atom_w.
      ebind (widget_from_abbrev (AList QUANTS)) (\<lambda>quantity_w.
      ebind (widget_from_abbrev (ABool False)) (\<lambda>y_log_w.
      ebind (widget_from_abbrev xslider) (\<lambda>x_w.
      ebind (widget_from_abbrev xslider) (\<lambda>y_w.
      ebind (np_get (map snd (options atom_w)) 0) (\<lambda>atom0.
      ebind (np_get (map snd (options quantity_w)) 0) (\<lambda>quantity0.
      ebind (pop_update rh ax atom0 quantity0 False 0 0) (\<lambda>(level_w, ax1).
      Inr \<lparr>p_atoms = atoms, p_atom_w = atom_w, p_quantity_w = quantity_w,
           p_y_log_w = y_log_w, p_x_w = x_w, p_y_w = y_w, p_level_w = level_w,
           p_ax = ax1\<rparr>))))))))))))))"

section \<open>Cumulative integration and interpolation\<close>

definition np_diff :: "real list \<Rightarrow> real list" where
  \<comment> \<open>\<^verbatim>\<open>numpy.diff\<close>: \<^verbatim>\<open>x[i + 1] - x[i]\<close>\<close>
  "np_diff x = map2 (\<lambda>a b. b - a) x (tl x)"

fun cumsum_from :: "real \<Rightarrow> real list \<Rightarrow> real list" where
  "cumsum_from acc [] = []"
| "cumsum_from acc (v # vs) = (acc + v) # cumsum_from (acc + v) vs"

definition np_cumsum :: "real list \<Rightarrow> real list" where
  "np_cumsum vs = cumsum_from 0 vs"

definition cumtrapz :: "real list \<Rightarrow> real list \<Rightarrow> py_error + real list" where
  \<comment> \<open>\<^verbatim>\<open>cumtrapz(y, x=x)\<close> with no \<^verbatim>\<open>initial\<close>: one value for each interval, the first
      being the area of the first trapezoid.\<close>
  "cumtrapz y x =
     (let d = np_diff x in
      if int (length d) \<noteq> int (length y) - 1 then Inl ValueError
      else Inr (np_cumsum (map2 (\<lambda>dx s. dx * s / 2) d (map2 (+) (tl y) (butlast y)))))"

definition interp1d :: "real list \<Rightarrow> real list \<Rightarrow> py_error + (real \<times> real) list" where
  \<comment> \<open>\<^verbatim>\<open>interp1d(x, y)\<close> with its defaults (linear, \<^verbatim>\<open>bounds_error\<close> on, \<^verbatim>\<open>assume_sorted\<close>
      off): the table of points in ascending order of abscissa; arrays of unequal length
      and tables of fewer than two points are refused.\<close>
  "interp1d x y =
     (if length x \<noteq> length y then Inl ValueError
      else if length x < 2 then Inl ValueError
      else Inr (sort_key fst (zip x y)))"

definition searchsorted :: "real list \<Rightarrow> real \<Rightarrow> nat" where
  \<comment> \<open>\<^verbatim>\<open>numpy.searchsorted(xs, v)\<close> on an ascending array: the first index whose entry is
      not below \<^verbatim>\<open>v\<close>.\<close>
  "searchsorted xs v = length (takeWhile (\<lambda>u. u < v) xs)"

definition call_linear :: "(real \<times> real) list \<Rightarrow> real \<Rightarrow> real" where
  "call_linear tab x_new =
     (let xs = map fst tab; ys = map snd tab;
          i = min (length xs - 1) (max 1 (searchsorted xs x_new));
          lo = i - 1; hi = i;
          x_lo = xs ! lo; x_hi = xs ! hi;
          y_lo = ys ! lo; y_hi = ys ! hi;
          slope = (y_hi - y_lo) / (x_hi - x_lo)
      in slope * (x_new - x_lo) + y_lo)"

definition interp1d_call :: "(real \<times> real) list \<Rightarrow> real list \<Rightarrow> py_error + real list" where
  \<comment> \<open>evaluating the interpolant: a requested point outside the table's range raises.\<close>
  "interp1d_call tab x_new =
     (let xs = map fst tab in
      if list_ex (\<lambda>v. v < xs ! 0) x_new then Inl ValueError
      else if list_ex (\<lambda>v. v > last xs) x_new then Inl ValueError
      else Inr (map (call_linear tab) x_new))"

definition np_around :: "real \<Rightarrow> int" where
  \<comment> \<open>\<^verbatim>\<open>numpy.around(v).astype('i')\<close>: the nearest integer, a half going to the even one
      (the interpolated indices lie between 0 and the last index, so the conversion to
      32 bits keeps them).\<close>
  "np_around v =
     (let f = \<lfloor>v\<rfloor>; r = v - of_int f in
      if r < 1 / 2 then f
      else if r > 1 / 2 then f + 1
      else if even f then f else f + 1)"

section \<open>The SourceFunction viewer\<close>

definition TAU_LEVELS :: "real list" where
  "TAU_LEVELS = [3 / 10, 1, 3]"

definition get_tau_levels ::
  "rh_object \<Rightarrow> int \<Rightarrow> int \<Rightarrow> int \<Rightarrow> py_error + real list \<times> int list" where
  "get_tau_levels rh x y wave =
     ebind (np_get2 (height_scale (rh_atmos rh)) x y) (\<lambda>h.
     ebind (np_col (chi (rh_ray rh)) x y wave) (\<lambda>c.
     ebind (cumtrapz c (map uminus h)) (\<lambda>tau0.
     ebind (interp1d tau0 (tl h)) (\<lambda>f.
     ebind (interp1d_call f TAU_LEVELS) (\<lambda>tau.
     ebind (interp1d h (map real [0 ..< length h])) (\<lambda>g.
     ebind (interp1d_call g tau) (\<lambda>fi.
     Inr (map (\<lambda>v. v / 1000000) tau, map np_around fi))))))))"

definition np_get4 :: "'a list list list list \<Rightarrow> int \<Rightarrow> int \<Rightarrow> int \<Rightarrow> int \<Rightarrow> py_error + 'a" where
  "np_get4 a i j k l = ebind (np_get3 a i j k) (\<lambda>r. np_get r l)"

definition annotate_initial ::
  "real list \<Rightarrow> real list \<Rightarrow> int list \<Rightarrow> py_error + axes \<Rightarrow> nat \<Rightarrow> py_error + axes" where
  \<comment> \<open>one round of the loop that creates the annotations, on the column \<^verbatim>\<open>sf\<close>\<close>
  "annotate_initial sf tau_v h_idx acc i =
     ebind acc (\<lambda>ax.
     ebind (np_get TAU_LEVELS (int i)) (\<lambda>level.
     ebind (np_get tau_v (int i)) (\<lambda>xval.
     ebind (np_get h_idx (int i)) (\<lambda>k.
     ebind (np_get sf k) (\<lambda>yval.
     Inr (ax\<lparr>texts := texts ax @
            [\<lparr>ann_level = level, xy = (xval, yval),
              xytext = (xval, yval / (2 / 10 - 3 / 100 * real i))\<rparr>]\<rparr>))))))"

definition sf_plot :: "(real \<Rightarrow> real list \<Rightarrow> real list) \<Rightarrow> rh_object \<Rightarrow> py_error + axes" where
  \<comment> \<open>\<^verbatim>\<open>_sf_plot\<close>; the Planck function of \<^verbatim>\<open>utils/utilsmath.py\<close> is a parameter.\<close>
  "sf_plot planck rh =
     ebind (np_col (source_function (rh_ray rh)) 0 0 0) (\<lambda>sf.
     ebind (np_get2 (height_scale (rh_atmos rh)) 0 0) (\<lambda>h.
     let height = map (\<lambda>v. v / 1000000) h in
     ebind (np_get (wavelength_selected (rh_ray rh)) 0) (\<lambda>wl.
     ebind (np_get2 (temperature (rh_atmos rh)) 0 0) (\<lambda>temp.
     let bplanck = planck wl temp in
     ebind (np_col (Jlambda (rh_ray rh)) 0 0 0) (\<lambda>j.
     let ax = \<lparr>lines = [\<lparr>xdata = height, ydata = sf\<rparr>,
                        \<lparr>xdata = height, ydata = j\<rparr>,
                        \<lparr>xdata = height, ydata = bplanck\<rparr>],
               texts = [],
               xlabel = ''Height (Mm)'',
               ylabel = ''W m$^{-2}$ Hz$^{-1}$ sr$^{-1}$'',
               ax_title = TitleNm wl,
               yscale = ''log''\<rparr> in
     ebind (get_tau_levels rh 0 0 0) (\<lambda>(tau_v, h_idx).
     foldl (annotate_initial sf tau_v h_idx) (Inr ax) [0 ..< length TAU_LEVELS]))))))"

definition move_annotation :: "nat \<Rightarrow> real \<Rightarrow> real \<Rightarrow> annotation \<Rightarrow> annotation" where
  \<comment> \<open>\<^verbatim>\<open>t.xy = (xval, yval); t.set_position((xval, yval / (0.2 - 0.03 * i)))\<close>\<close>
  "move_annotation i xval yval t =
     t\<lparr>xy := (xval, yval), xytext := (xval, yval / (2 / 10 - 3 / 100 * real i))\<rparr>"

definition annotate_update ::
  "rh_object \<Rightarrow> int \<Rightarrow> int \<Rightarrow> int \<Rightarrow> real list \<Rightarrow> int list \<Rightarrow> py_error + axes \<Rightarrow> nat
   \<Rightarrow> py_error + axes" where
  \<comment> \<open>one round of the loop that moves the annotations\<close>
  "annotate_update rh x y wavelength tau_v h_idx acc i =
     ebind acc (\<lambda>ax.
     ebind (np_get tau_v (int i)) (\<lambda>xval.
     ebind (np_get h_idx (int i)) (\<lambda>k.
     ebind (np_get4 (source_function (rh_ray rh)) x y k wavelength) (\<lambda>yval.
     ebind (np_get (texts ax) (int i)) (\<lambda>t.
     Inr (ax\<lparr>texts := (texts ax)[i := move_annotation i xval yval t]\<rparr>))))))"

definition set_all_ydata :: "real list list \<Rightarrow> axes \<Rightarrow> py_error + axes" where
  \<comment> \<open>\<^verbatim>\<open>for i, q in enumerate(quants): ax.lines[i].set_ydata(q)\<close>\<close>
  "set_all_ydata quants ax =
     foldl (\<lambda>acc (i, q). ebind acc (set_ydata i q)) (Inr ax) (enumerate 0 quants)"

definition sf_update ::
  "(real \<Rightarrow> real list \<Rightarrow> real list) \<Rightarrow> rh_object \<Rightarrow> axes \<Rightarrow> int \<Rightarrow> bool \<Rightarrow> int \<Rightarrow> int
   \<Rightarrow> py_error + axes" where
  "sf_update planck rh ax wavelength y_log x y =
     ebind (np_get (wavelength_selected (rh_ray rh)) wavelength) (\<lambda>wl.
     ebind (np_get2 (temperature (rh_atmos rh)) x y) (\<lambda>temp.
     let bplanck = planck wl temp in
     ebind (np_col (source_function (rh_ray rh)) x y wavelength) (\<lambda>sf.
     ebind (np_col (Jlambda (rh_ray rh)) x y wavelength) (\<lambda>j.
     let quants = [sf, j, bplanck] in
     ebind (set_all_ydata quants ax) (\<lambda>ax1.
     let ax2 = ax1\<lparr>ax_title := TitleNm wl\<rparr> in
     ebind (get_tau_levels rh x y wavelength) (\<lambda>(tau_v, h_idx).
     ebind (foldl (annotate_update rh x y wavelength tau_v h_idx) (Inr ax2)
              [0 ..< length TAU_LEVELS]) (\<lambda>ax3.
     Inr (set_yscale y_log ax3))))))))"

record sf_viewer =
  s_wavelength_w :: widget
  s_y_log_w :: widget
  s_x_w :: widget
  s_y_w :: widget
  s_ax :: axes

definition sf_display ::
  "(real \<Rightarrow> real list \<Rightarrow> real list) \<Rightarrow> rh_object \<Rightarrow> py_error + sf_viewer" where
  \<comment> \<open>\<^verbatim>\<open>SourceFunction.display\<close>; \<^verbatim>\<open>interact\<close> builds the controls and calls the
      callback with their initial values.\<close>
  "sf_display planck rh =
     (case shape4 (source_function (rh_ray rh)) of (NX, NY, NZ, NWAVE) \<Rightarrow>
      let xslider = spatial_slider NX;
          yslider = spatial_slider NY in
      ebind (sf_plot planck rh) (\<lambda>ax.
      ebind (widget_from_abbrev (ATuple3 0 NWAVE 1)) (\<lambda>wavelength_w.
      ebind (widget_from_abbrev (ABool True)) (\<lambda>y_log_w.
      ebind (widget_from_abbrev xslider) (\<lambda>x_w.
      ebind (widget_from_abbrev xslider) (\<lambda>y_w.
      ebind (sf_update planck rh ax 0 True 0 0) (\<lambda>ax1.
      Inr \<lparr>s_wavelength_w = wavelength_w, s_y_log_w = y_log_w, s_x_w = x_w,
           s_y_w = y_w, s_ax = ax1\<rparr>)))))))"

section \<open>The optical-depth locator as the specification words it\<close>

definition spec_tau_at :: "real list \<Rightarrow> real list \<Rightarrow> nat \<Rightarrow> real" where
  \<comment> \<open>the cumulative optical depth at grid point \<open>k\<close>: the trapezoidal integral of \<open>c\<close>
      against \<open>- h\<close> from the outermost point, index 0, where it is zero.\<close>
  "spec_tau_at c h k = (\<Sum>j<k. (c ! j + c ! Suc j) / 2 * (h ! j - h ! Suc j))"


section \<open>Example result objects\<close>

text \<open>
  Small result objects on which the viewers are run: one column with two species, and a
  grid of two columns along x and one along y.  The heights fall from 10 to 0 and the
  absorption coefficient is 1 throughout, so the optical depth runs from 0.2 to 10.
\<close>

definition planck_example :: "real \<Rightarrow> real list \<Rightarrow> real list" where
  \<comment> \<open>stands for the Planck function of \<^verbatim>\<open>utils/utilsmath.py\<close> when a viewer is run on an
      example; no property of it is used.\<close>
  "planck_example wl temp = map (\<lambda>t. t / wl) temp"

definition atom_ca_example :: atom where
  "atom_ca_example =
     \<lparr>nlevel = 5,
      populations = [[[[1, 2, 3]]], [[[3, 4, 5]]], [[[5, 6, 7]]], [[[7, 8, 9]]], [[[9, 10, 11]]]],
      populations_LTE = [[[[2, 2, 2]]], [[[2, 2, 2]]], [[[2, 4, 8]]], [[[2, 2, 2]]], [[[2, 2, 2]]]]\<rparr>"

definition atom_h_example :: atom where
  "atom_h_example =
     \<lparr>nlevel = 1, populations = [[[[1, 2, 3]]]], populations_LTE = [[[[2, 2, 2]]]]\<rparr>"

definition rh_column :: rh_object where
  "rh_column =
     \<lparr>members = [(''ray'', OtherMember), (''atom_H'', AtomMember atom_h_example),
                 (''atmos'', OtherMember), (''atom_CA'', AtomMember atom_ca_example)],
      rh_atmos = \<lparr>temperature = [[[5000, 6000, 7000]]],
                  height_scale = [[[10, 98 / 10, 0]]]\<rparr>,
      rh_ray = \<lparr>source_function = [[[[1, 2], [3, 4], [5, 6]]]],
                Jlambda = [[[[1, 1], [2, 2], [3, 3]]]],
                chi = [[[[1, 1], [1, 1], [1, 1]]]],
                wavelength_selected = [500, 600]\<rparr>\<rparr>"

definition atom_h_wide :: atom where
  "atom_h_wide =
     \<lparr>nlevel = 1,
      populations = [[[[1, 2, 3]], [[4, 5, 6]]]],
      populations_LTE = [[[[2, 2, 2]], [[2, 2, 2]]]]\<rparr>"

definition rh_wide :: rh_object where
  "rh_wide =
     \<lparr>members = [(''atmos'', OtherMember), (''atom_H'', AtomMember atom_h_wide),
                 (''ray'', OtherMember)],
      rh_atmos = \<lparr>temperature = [[[5000, 6000, 7000]], [[5500, 6500, 7500]]],
                  height_scale = [[[10, 98 / 10, 0]], [[10, 98 / 10, 0]]]\<rparr>,
      rh_ray = \<lparr>source_function = [[[[1], [3], [5]]], [[[2], [4], [6]]]],
                Jlambda = [[[[1], [2], [3]]], [[[4], [5], [6]]]],
                chi = [[[[1], [1], [1]]], [[[1], [2], [1]]]],
                wavelength_selected = [500]\<rparr>\<rparr>"

definition rh_uniform :: rh_object where
  \<comment> \<open>one column of three points on the uniform grid from 2 down to 0, with the
      absorption coefficient 1: the optical depth runs from 1 to 2.\<close>
  "rh_uniform =
     \<lparr>members = [],
      rh_atmos = \<lparr>temperature = [[[5000, 5000, 5000]]], height_scale = [[[2, 1, 0]]]\<rparr>,
      rh_ray = \<lparr>source_function = [[[[1], [1], [1]]]],
                Jlambda = [[[[1], [1], [1]]]],
                chi = [[[[1], [1], [1]]]],
                wavelength_selected = [500]\<rparr>\<rparr>"


section \<open>Auxiliary facts\<close>

lemma ebind_Inr_iff: "ebind m f = Inr r \<longleftrightarrow> (\<exists>v. m = Inr v \<and> f v = Inr r)"
  by (cases m) (simp_all add: ebind_def)

lemma ebind_simps [simp]: "ebind (Inl e) f = Inl e" "ebind (Inr v) f = f v"
  by (simp_all add: ebind_def)

lemma not_isl_Inr: "\<not> isl m \<Longrightarrow> \<exists>v. m = Inr v"
  by (cases m) simp_all



lemma set_ydata_0: "set_ydata 0 q ax = Inr ax' \<Longrightarrow> ydata (lines ax' ! 0) = q"
  by (auto simp: set_ydata_def split: if_splits)

lemma set_yscale_lines: "lines (set_yscale b ax) = lines ax"
  by (simp add: set_yscale_def)




subsection \<open>The callbacks as updates of the figure\<close>










subsection \<open>Species discovery\<close>

lemma two_names_sorted:
  assumes "a \<in> set names" "b \<in> set names" "a < b" "P a" "P b"
    and "\<forall>n \<in> set names. P n \<longrightarrow> n = a \<or> n = b"
  shows "filter P (sort (remdups names)) = [a, b]"
proof -
  have "filter P (sort (remdups names)) = sort (remdups (filter P names))"
    by (simp add: filter_sort remdups_filter)
  also have "\<dots> = sorted_list_of_set (set (filter P names))"
    by (simp only: sorted_list_of_set_sort_remdups)
  also have "set (filter P names) = {a, b}"
    using assms by auto
  also have "sorted_list_of_set {a, b} = [a, b]"
    using \<open>a < b\<close> by (simp add: insort_is_Cons less_imp_le)
  finally show ?thesis .
qed

lemma init_atoms_two:
  assumes "''atom_CA'' \<in> fst ` set (members rh)" "''atom_H'' \<in> fst ` set (members rh)"
    and "\<forall>n \<in> fst ` set (members rh).
           take 5 n = ''atom_'' \<longrightarrow> n = ''atom_CA'' \<or> n = ''atom_H''"
  shows "init_atoms rh = [''atom_CA'', ''atom_H'']"
  unfolding init_atoms_def dir_py_def
  using assms by (intro two_names_sorted) simp_all

lemma ATOMS_two:
  "ATOMS_of [''atom_CA'', ''atom_H''] = Inr [(''Ca'', ''atom_CA''), (''H'', ''atom_H'')]"
  by code_simp

lemma pop_display_y_is_x: "pop_display rh = Inr v \<Longrightarrow> p_y_w v = p_x_w v"
  by (cases "shape3 (temperature (rh_atmos rh))")
     (auto simp: pop_display_def Let_def ebind_Inr_iff)

lemma sf_display_y_is_x: "sf_display planck rh = Inr v \<Longrightarrow> s_y_w v = s_x_w v"
  by (cases "shape4 (source_function (rh_ray rh))")
     (auto simp: sf_display_def Let_def ebind_Inr_iff)

section \<open>The controls\<close>

text \<open>
  C1.  Each spatial control should be bound to its own axis: fixed at index 0 when the axis
  has size 1, and a range from 0 to size - 1 of that same axis otherwise.  Both viewers
  compute \<^verbatim>\<open>yslider\<close> from the size along y and then register \<^verbatim>\<open>y=xslider\<close>.  On a grid
  of two columns along x and one along y the y control of either viewer is therefore the
  range from 0 to 1, not the fixed index 0, and selecting 1 on it makes the callback read
  outside the y axis.
\<close>

theorem y_control_bound_to_x_axis:
  "shape3 (temperature (rh_atmos rh_wide)) = (2, 1, 3)
   \<and> map_sum id p_y_w (pop_display rh_wide) = Inr (IntSlider 0 1 1)
   \<and> map_sum id (\<lambda>v. interactive (p_y_w v)) (pop_display rh_wide) = Inr True
   \<and> ebind (pop_display rh_wide)
        (\<lambda>v. pop_update_level rh_wide (p_ax v) ''atom_H'' ''Populations'' False 0 1 1)
      = Inl IndexError
   \<and> shape4 (source_function (rh_ray rh_wide)) = (2, 1, 3, 1)
   \<and> map_sum id s_y_w (sf_display planck_example rh_wide) = Inr (IntSlider 0 1 1)
   \<and> ebind (sf_display planck_example rh_wide)
        (\<lambda>v. sf_update planck_example rh_wide (s_ax v) 0 True 0 1)
      = Inl IndexError"
  by code_simp

text \<open>
  C2.  Every control should offer only valid indices of the array it selects from, the
  wavelength control exactly the indices from 0 to NWAVE - 1.  The wavelength control is
  registered as \<^verbatim>\<open>(0, NWAVE, 1)\<close>, a slider whose largest value is NWAVE itself: with two
  wavelengths the value 2 can be selected, and the callback then reads past the end of the
  selected wavelengths.
\<close>

theorem wavelength_control_selects_NWAVE:
  "shape4 (source_function (rh_ray rh_column)) = (1, 1, 3, 2)
   \<and> map_sum id s_wavelength_w (sf_display planck_example rh_column) = Inr (IntSlider 0 2 1)
   \<and> selects (IntSlider 0 2 1) 2
   \<and> ebind (sf_display planck_example rh_column)
        (\<lambda>v. sf_update planck_example rh_column (s_ax v) 2 True 0 0)
      = Inl IndexError"
  by code_simp



text \<open>
  C6.  With the quantity \<^verbatim>\<open>Departure coefficients\<close> selected, the plotted curve is the
  quotient of the populations slice and the LTE populations slice at level index k - 1 and
  column (x, y), taken point by point and not transformed further.  The two slices have
  the same length, and the LTE populations are not zero (where a real quotient stands for
  the floating-point one).
\<close>

theorem departure_coefficients_elementwise:
  assumes a: "getattr_atom rh atom = Inr a"
    and n: "np_get3 (populations a) (k - 1) x y = Inr n"
    and ns: "np_get3 (populations_LTE a) (k - 1) x y = Inr nstar"
    and len: "length n = length nstar"
    and nz: "0 \<notin> set nstar"
    and upd: "pop_update_level rh ax atom ''Departure coefficients'' y_log x y k = Inr ax'"
  shows "ydata (lines ax' ! 0) = map2 (/) n nstar
       \<and> length (ydata (lines ax' ! 0)) = length n
       \<and> (\<forall>j < length n. ydata (lines ax' ! 0) ! j = n ! j / nstar ! j)"
proof -
  from upd a n ns obtain tmp yl axm where
      q: "pop_quantity ''Departure coefficients'' n nstar = Inr (tmp, yl)"
    and s: "set_ydata 0 tmp (ax\<lparr>ylabel := yl\<rparr>) = Inr axm"
    and r: "lines ax' = lines axm"
    by (auto simp: pop_update_level_def ebind_Inr_iff set_yscale_lines)
  from q len have "tmp = map2 (/) n nstar"
    by (auto simp: pop_quantity_def np_divide_def)
  moreover from s r have "ydata (lines ax' ! 0) = tmp"
    by (simp add: set_ydata_0)
  ultimately have e: "ydata (lines ax' ! 0) = map2 (/) n nstar" by simp
  with len show ?thesis by simp
qed

theorem departure_coefficients_elementwise_witness:
  "\<exists>ax ax'.
     getattr_atom rh_column ''atom_CA'' = Inr atom_ca_example
   \<and> np_get3 (populations atom_ca_example) (3 - 1) 0 0 = Inr [5, 6, 7]
   \<and> np_get3 (populations_LTE atom_ca_example) (3 - 1) 0 0 = Inr [2, 4, 8]
   \<and> length [5, 6, 7 :: real] = length [2, 4, 8 :: real]
   \<and> 0 \<notin> set [2, 4, 8 :: real]
   \<and> pop_update_level rh_column ax ''atom_CA'' ''Departure coefficients'' True 0 0 3 = Inr ax'
   \<and> ydata (lines ax' ! 0) = [5 / 2, 6 / 4, 7 / 8]"
proof -
  have "\<not> isl (pop_plot rh_column ''atom_CA'')" by code_simp
  then obtain ax where ax: "pop_plot rh_column ''atom_CA'' = Inr ax"
    by (auto dest: not_isl_Inr)
  have "\<not> isl (ebind (pop_plot rh_column ''atom_CA'')
          (\<lambda>ax. pop_update_level rh_column ax ''atom_CA'' ''Departure coefficients'' True 0 0 3))"
    by code_simp
  with ax obtain ax' where
      upd: "pop_update_level rh_column ax ''atom_CA'' ''Departure coefficients'' True 0 0 3
            = Inr ax'"
    by (auto dest: not_isl_Inr)
  have a: "getattr_atom rh_column ''atom_CA'' = Inr atom_ca_example" by code_simp
  have n: "np_get3 (populations atom_ca_example) (3 - 1) 0 0 = Inr [5, 6, 7]" by code_simp
  have ns: "np_get3 (populations_LTE atom_ca_example) (3 - 1) 0 0 = Inr [2, 4, 8]"
    by code_simp
  have len: "length [5, 6, 7 :: real] = length [2, 4, 8 :: real]" by simp
  have nz: "0 \<notin> set [2, 4, 8 :: real]" by simp
  from departure_coefficients_elementwise[OF a n ns len nz upd]
  have "ydata (lines ax' ! 0) = [5 / 2, 6 / 4, 7 / 8]" by simp
  with a n ns len nz upd show ?thesis by blast
qed

section \<open>The callbacks\<close>





text \<open>
  C9.  For a result object whose attributes with the prefix \<^verbatim>\<open>atom_\<close> are \<^verbatim>\<open>atom_CA\<close>
  (with five levels) and \<^verbatim>\<open>atom_H\<close>, on a grid of size 1 along x and y, the Populations
  viewer discovers exactly these two species, fixes both spatial controls at index 0,
  offers the species under the labels Ca and H, and bounds the level control to the levels
  1 to 5 when Ca is selected (as it is when the viewer opens).
\<close>

theorem pop_display_two_species_scenario:
  assumes ca: "''atom_CA'' \<in> fst ` set (members rh)"
    and h: "''atom_H'' \<in> fst ` set (members rh)"
    and only: "\<forall>n \<in> fst ` set (members rh).
                 take 5 n = ''atom_'' \<longrightarrow> n = ''atom_CA'' \<or> n = ''atom_H''"
    and lev: "getattr_atom rh ''atom_CA'' = Inr a" "nlevel a = 5"
    and shape: "shape3 (temperature (rh_atmos rh)) = (1, 1, NZ)"
    and disp: "pop_display rh = Inr v"
  shows "p_atoms v = [''atom_CA'', ''atom_H'']
       \<and> p_x_w v = Fixed 0 \<and> p_y_w v = Fixed 0
       \<and> \<not> interactive (p_x_w v) \<and> \<not> interactive (p_y_w v)
       \<and> p_atom_w v = Dropdown [(''Ca'', ''atom_CA''), (''H'', ''atom_H'')]
       \<and> p_level_w v = IntSlider 1 5 1
       \<and> (\<forall>k. selects (p_level_w v) k \<longleftrightarrow> 1 \<le> k \<and> k \<le> 5)
       \<and> (\<forall>ax q b x y lw ax1. pop_update rh ax ''atom_CA'' q b x y = Inr (lw, ax1)
             \<longrightarrow> lw = IntSlider 1 5 1)"
proof -
  have atoms: "init_atoms rh = [''atom_CA'', ''atom_H'']"
    using ca h only by (rule init_atoms_two)
  have upd: "lw = IntSlider 1 5 1" if "pop_update rh ax ''atom_CA'' q b x y = Inr (lw, ax1)"
    for ax q b x y lw ax1
    using that lev by (auto simp: pop_update_def ebind_Inr_iff widget_from_tuple_def Let_def)
  from disp obtain ax ax1 lw where
      v: "v = \<lparr>p_atoms = [''atom_CA'', ''atom_H''],
              p_atom_w = Dropdown [(''Ca'', ''atom_CA''), (''H'', ''atom_H'')],
              p_quantity_w = Dropdown (map (\<lambda>v. (v, v)) QUANTS),
              p_y_log_w = Checkbox False, p_x_w = Fixed 0, p_y_w = Fixed 0,
              p_level_w = lw, p_ax = ax1\<rparr>"
    and u: "pop_update rh ax ''atom_CA'' ''Populations'' False 0 0 = Inr (lw, ax1)"
    unfolding pop_display_def atoms ATOMS_two Let_def shape
    by (auto simp: ebind_Inr_iff np_get_def spatial_slider_def QUANTS_def)
  from upd[OF u] v upd show ?thesis by auto
qed

theorem pop_display_two_species_scenario_witness:
  "\<exists>v. ''atom_CA'' \<in> fst ` set (members rh_column)
     \<and> ''atom_H'' \<in> fst ` set (members rh_column)
     \<and> (\<forall>n \<in> fst ` set (members rh_column).
           take 5 n = ''atom_'' \<longrightarrow> n = ''atom_CA'' \<or> n = ''atom_H'')
     \<and> getattr_atom rh_column ''atom_CA'' = Inr atom_ca_example
     \<and> nlevel atom_ca_example = 5
     \<and> shape3 (temperature (rh_atmos rh_column)) = (1, 1, 3)
     \<and> pop_display rh_column = Inr v
     \<and> p_atoms v = [''atom_CA'', ''atom_H'']
     \<and> p_x_w v = Fixed 0 \<and> p_y_w v = Fixed 0
     \<and> p_atom_w v = Dropdown [(''Ca'', ''atom_CA''), (''H'', ''atom_H'')]
     \<and> p_level_w v = IntSlider 1 5 1"
proof -
  have "\<not> isl (pop_display rh_column)" by code_simp
  then obtain v where disp: "pop_display rh_column = Inr v"
    by (auto dest: not_isl_Inr)
  have ca: "''atom_CA'' \<in> fst ` set (members rh_column)"
    and h: "''atom_H'' \<in> fst ` set (members rh_column)"
    and only: "\<forall>n \<in> fst ` set (members rh_column).
                 take 5 n = ''atom_'' \<longrightarrow> n = ''atom_CA'' \<or> n = ''atom_H''"
    by (simp_all add: rh_column_def)
  have a: "getattr_atom rh_column ''atom_CA'' = Inr atom_ca_example" by code_simp
  have l: "nlevel atom_ca_example = 5" by code_simp
  have s: "shape3 (temperature (rh_atmos rh_column)) = (1, 1, 3)" by code_simp
  from pop_display_two_species_scenario[OF ca h only a l s disp] ca h only a l s disp
  show ?thesis by blast
qed

section \<open>Sorting, searching and linear interpolation\<close>

lemma sorted_nth0_Min: "sorted xs \<Longrightarrow> xs \<noteq> [] \<Longrightarrow> xs ! 0 = Min (set xs)"
  for xs :: "real list"
  by (cases xs) (auto simp: Min_insert2 intro!: antisym)

lemma sorted_last_Max: "sorted xs \<Longrightarrow> xs \<noteq> [] \<Longrightarrow> last xs = Max (set xs)"
  for xs :: "real list"
proof (induction xs)
  case Nil
  then show ?case by simp
next
  case (Cons x xs)
  show ?case
  proof (cases "xs = []")
    case True
    then show ?thesis by simp
  next
    case False
    with Cons have "last xs = Max (set xs)" by simp
    moreover from Cons.prems False have "x \<le> Max (set xs)"
      by (metis List.finite_set Max_ge last_in_set calculation set_ConsD sorted_simps(2) order_refl)
    ultimately show ?thesis using False by (simp add: max_absorb2)
  qed
qed

lemma map_insort_key: "map f (insort_key f x xs) = insort (f x) (map f xs)"
  by (induction xs) simp_all

lemma map_fst_sort_key: "map f (sort_key f ps) = sort (map f ps)"
  by (induction ps) (simp_all add: map_insort_key)

lemma searchsorted_before: "i < searchsorted xs v \<Longrightarrow> xs ! i < v"
  unfolding searchsorted_def
  by (metis nth_mem set_takeWhileD takeWhile_nth)

lemma searchsorted_at: "searchsorted xs v < length xs \<Longrightarrow> v \<le> xs ! searchsorted xs v"
  unfolding searchsorted_def
  using nth_length_takeWhile[of "\<lambda>u. u < v" xs] by simp

lemma clip_segment:
  assumes s: "sorted xs" and n: "2 \<le> length xs"
    and lo: "xs ! 0 \<le> v" and hi: "v \<le> last xs"
  defines "i \<equiv> min (length xs - 1) (max 1 (searchsorted xs v))"
  shows "1 \<le> i \<and> i < length xs \<and> xs ! (i - 1) \<le> v \<and> v \<le> xs ! i"
proof -
  let ?k = "searchsorted xs v"
  have ne: "xs \<noteq> []" using n by auto
  have last: "last xs = xs ! (length xs - 1)"
    using ne by (simp add: last_conv_nth)
  have klt: "?k < length xs"
  proof (rule ccontr)
    assume "\<not> ?k < length xs"
    then have "length xs - 1 < ?k" using n by simp
    then have "xs ! (length xs - 1) < v" by (rule searchsorted_before)
    with hi last show False by simp
  qed
  have bounds: "1 \<le> i" "i < length xs"
    using n klt by (simp_all add: i_def)
  show ?thesis
  proof (cases "?k = 0")
    case True
    then have i1: "i = 1" using n by (simp add: i_def)
    from True klt have "v \<le> xs ! 0" using searchsorted_at[of xs v] by simp
    also have "xs ! 0 \<le> xs ! 1" using s n by (simp add: sorted_nth_mono)
    finally have "v \<le> xs ! 1" .
    with lo i1 bounds show ?thesis by simp
  next
    case False
    then have ik: "i = ?k" using klt by (simp add: i_def)
    from False have "xs ! (?k - 1) < v" by (intro searchsorted_before) simp
    moreover have "v \<le> xs ! ?k" using klt by (rule searchsorted_at)
    ultimately show ?thesis using ik bounds by simp
  qed
qed

lemma clip_nat:
  fixes n k :: nat
  assumes "2 \<le> n"
  shows "1 \<le> min (n - 1) (max 1 k)" "min (n - 1) (max 1 k) < n"
    "min (n - 1) (max 1 k) - 1 < n" "min (n - 1) (max 1 k) - 1 \<noteq> min (n - 1) (max 1 k)"
  using assms by (auto simp: min_def max_def)

lemma call_linear_at:
  fixes tab :: "(real \<times> real) list" and v :: real
  assumes n: "2 \<le> length tab"
  defines "i \<equiv> min (length (map fst tab) - 1) (max 1 (searchsorted (map fst tab) v))"
  shows "call_linear tab v
       = (snd (tab ! i) - snd (tab ! (i - 1))) / (fst (tab ! i) - fst (tab ! (i - 1)))
           * (v - fst (tab ! (i - 1))) + snd (tab ! (i - 1))"
proof -
  have r: "i < length tab" "i - 1 < length tab"
    unfolding i_def length_map using n by (rule clip_nat)+
  have m: "map fst tab ! (i - 1) = fst (tab ! (i - 1))" "map fst tab ! i = fst (tab ! i)"
      "map snd tab ! (i - 1) = snd (tab ! (i - 1))" "map snd tab ! i = snd (tab ! i)"
    using r by (simp_all only: nth_map)
  show ?thesis
    unfolding call_linear_def Let_def i_def[symmetric] m ..
qed

lemma call_linear_segment:
  assumes s: "sorted (map fst tab)" and n: "2 \<le> length tab"
    and lo: "map fst tab ! 0 \<le> v" and hi: "v \<le> last (map fst tab)"
  shows "\<exists>i. 1 \<le> i \<and> i < length tab \<and> fst (tab ! (i - 1)) \<le> v \<and> v \<le> fst (tab ! i)
          \<and> call_linear tab v
              = (snd (tab ! i) - snd (tab ! (i - 1))) / (fst (tab ! i) - fst (tab ! (i - 1)))
                  * (v - fst (tab ! (i - 1))) + snd (tab ! (i - 1))"
proof -
  define i where "i = min (length (map fst tab) - 1) (max 1 (searchsorted (map fst tab) v))"
  from n have n': "2 \<le> length (map fst tab)" by simp
  have r: "1 \<le> i" "i < length tab" "i - 1 < length tab"
    unfolding i_def length_map using n by (rule clip_nat)+
  have c: "map fst tab ! (i - 1) \<le> v" "v \<le> map fst tab ! i"
    using clip_segment[OF s n' lo hi] unfolding i_def by blast+
  have m: "map fst tab ! (i - 1) = fst (tab ! (i - 1))" "map fst tab ! i = fst (tab ! i)"
    using r by (simp_all only: nth_map)
  have e: "call_linear tab v
       = (snd (tab ! i) - snd (tab ! (i - 1))) / (fst (tab ! i) - fst (tab ! (i - 1)))
           * (v - fst (tab ! (i - 1))) + snd (tab ! (i - 1))"
    unfolding i_def using n by (rule call_linear_at)
  from r c e show ?thesis unfolding m by blast
qed


lemma convex_between:
  fixes a b v p q :: real
  assumes "a \<le> v" "v \<le> b"
  shows "min p q \<le> (q - p) / (b - a) * (v - a) + p \<and> (q - p) / (b - a) * (v - a) + p \<le> max p q"
proof (cases "a = b")
  case True
  then show ?thesis by simp
next
  case False
  with assms have ab: "a < b" by simp
  define t where "t = (v - a) / (b - a)"
  have t: "0 \<le> t" "t \<le> 1" using assms ab by (simp_all add: t_def)
  have e: "(q - p) / (b - a) * (v - a) + p = p + t * (q - p)"
    by (simp add: t_def)
  show ?thesis
  proof (cases "p \<le> q")
    case True
    then have "0 \<le> t * (q - p)" "t * (q - p) \<le> q - p"
      using t by (simp_all add: mult_left_le_one_le)
    with True show ?thesis unfolding e by simp
  next
    case False
    then have "t * (q - p) \<le> 0"
      using t by (intro mult_nonneg_nonpos) simp_all
    moreover from False have "(1 - t) * (q - p) \<le> 0"
      using t by (intro mult_nonneg_nonpos) simp_all
    then have "q \<le> p + t * (q - p)"
      by (simp add: algebra_simps)
    ultimately show ?thesis using False unfolding e by (simp add: min_def max_def)
  qed
qed

lemma call_linear_hull:
  assumes s: "sorted (map fst tab)" and n: "2 \<le> length tab"
    and lo: "map fst tab ! 0 \<le> v" and hi: "v \<le> last (map fst tab)"
  shows "Min (snd ` set tab) \<le> call_linear tab v \<and> call_linear tab v \<le> Max (snd ` set tab)"
proof -
  from call_linear_segment[OF assms] obtain i where
      i: "1 \<le> i" "i < length tab" "fst (tab ! (i - 1)) \<le> v" "v \<le> fst (tab ! i)"
    and e: "call_linear tab v
              = (snd (tab ! i) - snd (tab ! (i - 1))) / (fst (tab ! i) - fst (tab ! (i - 1)))
                  * (v - fst (tab ! (i - 1))) + snd (tab ! (i - 1))"
    by blast
  define p q where "p = snd (tab ! (i - 1))" and "q = snd (tab ! i)"
  from convex_between[OF i(3) i(4), of p q] e
  have b: "min p q \<le> call_linear tab v" "call_linear tab v \<le> max p q"
    unfolding p_def q_def by simp_all
  have "i - 1 < length tab" using i by simp
  then have "tab ! (i - 1) \<in> set tab" "tab ! i \<in> set tab"
    using i(2) by (simp_all only: nth_mem)
  then have mem: "p \<in> snd ` set tab" "q \<in> snd ` set tab"
    unfolding p_def q_def by (simp_all only: imageI)
  have fin: "finite (snd ` set tab)" by simp
  have "Min (snd ` set tab) \<le> p" "Min (snd ` set tab) \<le> q"
       "p \<le> Max (snd ` set tab)" "q \<le> Max (snd ` set tab)"
    using mem fin by (simp_all only: Min_le Max_ge)
  with b show ?thesis by (simp add: min_def max_def split: if_splits)
qed

lemma table_abscissae:
  assumes "length x = length y"
  shows "map fst (sort_key fst (zip x y)) = sort x"
  using assms by (simp add: map_fst_sort_key)

lemma interp1d_call_bounds:
  assumes len: "length x = length y" and ne: "x \<noteq> []"
  shows "interp1d_call (sort_key fst (zip x y)) vs
       = (if \<forall>v \<in> set vs. Min (set x) \<le> v \<and> v \<le> Max (set x)
          then Inr (map (call_linear (sort_key fst (zip x y))) vs) else Inl ValueError)"
proof -
  have xs: "map fst (sort_key fst (zip x y)) = sort x"
    using len by (rule table_abscissae)
  have sne: "sort x \<noteq> []"
    using ne by (metis set_empty set_sort)
  have lo: "sort x ! 0 = Min (set x)"
    using sorted_nth0_Min[of "sort x"] sne by simp
  have hi: "last (sort x) = Max (set x)"
    using sorted_last_Max[of "sort x"] sne by simp
  show ?thesis
    unfolding interp1d_call_def Let_def xs lo hi list_ex_iff
    by (simp add: not_less) (meson not_less)
qed

lemma cumsum_from_length: "length (cumsum_from acc vs) = length vs"
  by (induction vs arbitrary: acc) simp_all

lemma cumsum_from_nth:
  "k < length vs \<Longrightarrow> cumsum_from acc vs ! k = acc + (\<Sum>j<Suc k. vs ! j)"
proof (induction vs arbitrary: acc k)
  case Nil
  then show ?case by simp
next
  case (Cons v vs)
  show ?case
  proof (cases k)
    case 0
    then show ?thesis by simp
  next
    case (Suc m)
    with Cons.prems have "m < length vs" by simp
    from Cons.IH[OF this, of "acc + v"]
    have "cumsum_from (acc + v) vs ! m = acc + v + (\<Sum>j<Suc m. vs ! j)" .
    moreover have "(\<Sum>j<Suc (Suc m). (v # vs) ! j) = v + (\<Sum>j<Suc m. vs ! j)"
      by (subst sum.lessThan_Suc_shift) simp
    ultimately show ?thesis using Suc by simp
  qed
qed

lemma cumtrapz_spec:
  assumes len: "length c = length h"
  shows "cumtrapz c (map uminus h)
       = (if h = [] then Inl ValueError else Inr (map (spec_tau_at c h) [1 ..< length h]))"
proof (cases "h = []")
  case True
  with len show ?thesis by (simp add: cumtrapz_def np_diff_def)
next
  case False
  let ?terms = "map2 (\<lambda>dx s. dx * s / 2) (np_diff (map uminus h)) (map2 (+) (tl c) (butlast c))"
  have lt: "length ?terms = length h - 1"
    using len by (simp add: np_diff_def)
  have nth: "?terms ! j = (c ! j + c ! Suc j) / 2 * (h ! j - h ! Suc j)" if "j < length h - 1" for j
    using that len by (simp add: np_diff_def nth_tl nth_butlast)
  have "np_cumsum ?terms = map (spec_tau_at c h) [1 ..< length h]"
  proof (rule nth_equalityI)
    show "length (np_cumsum ?terms) = length (map (spec_tau_at c h) [1 ..< length h])"
      unfolding np_cumsum_def cumsum_from_length lt by simp
  next
    fix k assume "k < length (np_cumsum ?terms)"
    then have k: "k < length h - 1"
      by (simp only: np_cumsum_def cumsum_from_length lt)
    then have "k < length ?terms" by (simp only: lt)
    then have "np_cumsum ?terms ! k = (\<Sum>j<Suc k. ?terms ! j)"
      unfolding np_cumsum_def by (subst cumsum_from_nth) simp_all
    also have "\<dots> = (\<Sum>j<Suc k. (c ! j + c ! Suc j) / 2 * (h ! j - h ! Suc j))"
      using k by (intro sum.cong refl nth) simp
    also have "\<dots> = map (spec_tau_at c h) [1 ..< length h] ! k"
      using k by (simp add: spec_tau_at_def)
    finally show "np_cumsum ?terms ! k = map (spec_tau_at c h) [1 ..< length h] ! k" .
  qed
  moreover have "int (length (np_diff (map uminus h))) = int (length c) - 1"
    using False len by (cases h) (simp_all add: np_diff_def)
  ultimately show ?thesis
    using False by (simp add: cumtrapz_def Let_def)
qed

lemma snd_set_zip: "length xs = length ys \<Longrightarrow> snd ` set (zip xs ys) = set ys"
  by (metis map_snd_zip set_map)

lemma get_tau_levels_char:
  assumes h: "np_get2 (height_scale (rh_atmos rh)) x y = Inr h"
    and c: "np_col (chi (rh_ray rh)) x y w = Inr c"
    and len: "length c = length h"
  defines "tau0 \<equiv> map (spec_tau_at c h) [1 ..< length h]"
  defines "tab1 \<equiv> sort_key fst (zip tau0 (tl h))"
  defines "tab2 \<equiv> sort_key fst (zip h (map real [0 ..< length h]))"
  shows "get_tau_levels rh x y w
       = (if 2 \<le> length tau0 \<and> (\<forall>l \<in> set TAU_LEVELS. Min (set tau0) \<le> l \<and> l \<le> Max (set tau0))
          then Inr (map (\<lambda>v. v / 1000000) (map (call_linear tab1) TAU_LEVELS),
                    map np_around (map (call_linear tab2) (map (call_linear tab1) TAU_LEVELS)))
          else Inl ValueError)"
proof (cases "h = []")
  case True
  then have "tau0 = []" by (simp add: tau0_def)
  moreover have ct: "cumtrapz c (map uminus h) = Inl ValueError"
    using cumtrapz_spec[OF len] True by simp
  have "get_tau_levels rh x y w = Inl ValueError"
    by (simp add: get_tau_levels_def h c ct)
  ultimately show ?thesis by simp
next
  case False
  have l0: "length tau0 = length (tl h)" by (simp add: tau0_def)
  have step1: "get_tau_levels rh x y w =
     ebind (interp1d tau0 (tl h)) (\<lambda>f.
     ebind (interp1d_call f TAU_LEVELS) (\<lambda>tau.
     ebind (interp1d h (map real [0 ..< length h])) (\<lambda>g.
     ebind (interp1d_call g tau) (\<lambda>fi.
     Inr (map (\<lambda>v. v / 1000000) tau, map np_around fi)))))"
  proof -
    have ct: "cumtrapz c (map uminus h) = Inr tau0"
      using cumtrapz_spec[OF len] False by (simp add: tau0_def)
    show ?thesis
      by (simp add: get_tau_levels_def h c ct)
  qed
  show ?thesis
  proof (cases "2 \<le> length tau0")
    case short: False
    then have "interp1d tau0 (tl h) = Inl ValueError"
      using l0 by (simp add: interp1d_def)
    then have g: "get_tau_levels rh x y w = Inl ValueError"
      by (simp add: step1)
    from short have "\<not> (2 \<le> length tau0
        \<and> (\<forall>l \<in> set TAU_LEVELS. Min (set tau0) \<le> l \<and> l \<le> Max (set tau0)))"
      by blast
    then show ?thesis unfolding g by (simp only: if_False)
  next
    case long: True
    then have ne: "tau0 \<noteq> []" by auto
    have i1: "interp1d tau0 (tl h) = Inr tab1"
      using long l0 by (simp add: interp1d_def tab1_def)
    have c1: "interp1d_call tab1 TAU_LEVELS
       = (if \<forall>v \<in> set TAU_LEVELS. Min (set tau0) \<le> v \<and> v \<le> Max (set tau0)
          then Inr (map (call_linear tab1) TAU_LEVELS) else Inl ValueError)"
      unfolding tab1_def using l0 ne by (rule interp1d_call_bounds)
    show ?thesis
    proof (cases "\<forall>v \<in> set TAU_LEVELS. Min (set tau0) \<le> v \<and> v \<le> Max (set tau0)")
      case out: False
      with c1 have e1: "interp1d_call tab1 TAU_LEVELS = Inl ValueError"
        by (simp only: if_False)
      have g: "get_tau_levels rh x y w = Inl ValueError"
        by (simp add: step1 i1 e1)
      from out have "\<not> (2 \<le> length tau0
          \<and> (\<forall>l \<in> set TAU_LEVELS. Min (set tau0) \<le> l \<and> l \<le> Max (set tau0)))"
        by blast
      then show ?thesis unfolding g by (simp only: if_False)
    next
      case inside: True
      have lh: "3 \<le> length h" using long l0 by simp
      have i2: "interp1d h (map real [0 ..< length h]) = Inr tab2"
        using lh by (simp add: interp1d_def tab2_def)
      have c2: "interp1d_call tab2 vs
         = (if \<forall>v \<in> set vs. Min (set h) \<le> v \<and> v \<le> Max (set h)
            then Inr (map (call_linear tab2) vs) else Inl ValueError)" for vs
        unfolding tab2_def using False by (intro interp1d_call_bounds) simp_all
      have xs1: "map fst tab1 = sort tau0"
        unfolding tab1_def using l0 by (rule table_abscissae)
      have sne: "sort tau0 \<noteq> []" using ne by (metis set_empty set_sort)
      have lo1: "map fst tab1 ! 0 = Min (set tau0)"
        unfolding xs1 using sorted_nth0_Min[of "sort tau0"] sne by simp
      have hi1: "last (map fst tab1) = Max (set tau0)"
        unfolding xs1 using sorted_last_Max[of "sort tau0"] sne by simp
      have s1: "sorted (map fst tab1)" unfolding xs1 by simp
      have n1: "2 \<le> length tab1" using long l0 by (simp add: tab1_def)
      have ys1: "snd ` set tab1 = set (tl h)"
        unfolding tab1_def using l0 by (simp add: snd_set_zip)
      have tlne: "set (tl h) \<noteq> {}" using lh by (cases h) auto
      have sub: "set (tl h) \<subseteq> set h" by (cases h) auto
      have mm: "Min (set h) \<le> Min (set (tl h))" "Max (set (tl h)) \<le> Max (set h)"
        using sub tlne by (auto intro!: Min_antimono Max_mono)
      have within: "Min (set h) \<le> call_linear tab1 l \<and> call_linear tab1 l \<le> Max (set h)"
        if "l \<in> set TAU_LEVELS" for l
      proof -
        from inside that have "map fst tab1 ! 0 \<le> l" "l \<le> last (map fst tab1)"
          unfolding lo1 hi1 by simp_all
        from call_linear_hull[OF s1 n1 this] mm show ?thesis
          unfolding ys1 by linarith
      qed
      then have c2': "interp1d_call tab2 (map (call_linear tab1) TAU_LEVELS)
           = Inr (map (call_linear tab2) (map (call_linear tab1) TAU_LEVELS))"
        unfolding c2 by simp
      have e1: "interp1d_call tab1 TAU_LEVELS
           = Inr (map (call_linear tab1) TAU_LEVELS)"
        unfolding c1 using inside by (rule if_P)
      have g: "get_tau_levels rh x y w
           = Inr (map (\<lambda>v. v / 1000000) (map (call_linear tab1) TAU_LEVELS),
                  map np_around (map (call_linear tab2) (map (call_linear tab1) TAU_LEVELS)))"
        by (simp add: step1 i1 e1 i2 c2')
      from inside long have "2 \<le> length tau0
          \<and> (\<forall>l \<in> set TAU_LEVELS. Min (set tau0) \<le> l \<and> l \<le> Max (set tau0))"
        by blast
      then show ?thesis unfolding g by (rule if_P[symmetric])
    qed
  qed
qed

lemma levels_bracket:
  "(\<forall>l \<in> set TAU_LEVELS. lo \<le> l \<and> l \<le> hi) \<longleftrightarrow> lo \<le> 3 / 10 \<and> 3 \<le> hi"
  by (auto simp: TAU_LEVELS_def)

section \<open>The optical-depth locator\<close>

text \<open>
  C10.  The locator raises the out-of-bounds error of the interpolation exactly when the
  computed cumulative optical depths fail to bracket the reference levels: either there are
  fewer than two of them, or the smallest exceeds 0.3, or the largest is below 3.  It never
  extrapolates or clamps: it returns a result exactly when 0.3 and 3 (and so 1) lie in the
  closed interval they span.  For values in ascending order the smallest is the first and
  the largest the innermost one.  The computed values are those at the grid points 1, 2, ...;
  the zero at the outer boundary, grid point 0, is not among them.
\<close>

theorem tau_levels_must_be_bracketed:
  assumes h: "np_get2 (height_scale (rh_atmos rh)) x y = Inr h"
    and c: "np_col (chi (rh_ray rh)) x y w = Inr c"
    and len: "length c = length h"
    and tau: "cumtrapz c (map uminus h) = Inr tau"
  shows "(get_tau_levels rh x y w = Inl ValueError
            \<longleftrightarrow> length tau < 2 \<or> 3 / 10 < Min (set tau) \<or> Max (set tau) < 3)
       \<and> ((\<exists>r. get_tau_levels rh x y w = Inr r)
            \<longleftrightarrow> 2 \<le> length tau \<and> Min (set tau) \<le> 3 / 10 \<and> 3 \<le> Max (set tau))
       \<and> (sorted tau \<and> tau \<noteq> [] \<and> (3 / 10 < hd tau \<or> last tau < 3)
            \<longrightarrow> get_tau_levels rh x y w = Inl ValueError)
       \<and> tau = map (spec_tau_at c h) [1 ..< length h]"
proof -
  from tau cumtrapz_spec[OF len] have t0: "tau = map (spec_tau_at c h) [1 ..< length h]"
    by (simp split: if_splits)
  note ch = get_tau_levels_char[OF h c len, folded t0, unfolded levels_bracket]
  have a: "get_tau_levels rh x y w = Inl ValueError
            \<longleftrightarrow> length tau < 2 \<or> 3 / 10 < Min (set tau) \<or> Max (set tau) < 3"
    unfolding ch by auto
  have b: "(\<exists>r. get_tau_levels rh x y w = Inr r)
            \<longleftrightarrow> 2 \<le> length tau \<and> Min (set tau) \<le> 3 / 10 \<and> 3 \<le> Max (set tau)"
    unfolding ch by auto
  have s: "get_tau_levels rh x y w = Inl ValueError"
    if "sorted tau" "tau \<noteq> []" "3 / 10 < hd tau \<or> last tau < 3"
  proof -
    from that have "hd tau = Min (set tau)" "last tau = Max (set tau)"
      using sorted_nth0_Min[of tau] sorted_last_Max[of tau] by (simp_all add: hd_conv_nth)
    with that(3) a show ?thesis by auto
  qed
  from a b s t0 show ?thesis by blast
qed

theorem tau_levels_must_be_bracketed_witness:
  "np_get2 (height_scale (rh_atmos rh_uniform)) 0 0 = Inr [2, 1, 0]
   \<and> np_col (chi (rh_ray rh_uniform)) 0 0 0 = Inr [1, 1, 1]
   \<and> length [1, 1, 1 :: real] = length [2, 1, 0 :: real]
   \<and> cumtrapz [1, 1, 1] (map uminus [2, 1, 0]) = Inr [1, 2]
   \<and> 3 / 10 < Min (set [1, 2 :: real])
   \<and> get_tau_levels rh_uniform 0 0 0 = Inl ValueError"
proof -
  have h: "np_get2 (height_scale (rh_atmos rh_uniform)) 0 0 = Inr [2, 1, 0]" by code_simp
  have c: "np_col (chi (rh_ray rh_uniform)) 0 0 0 = Inr [1, 1, 1]" by code_simp
  have len: "length [1, 1, 1 :: real] = length [2, 1, 0 :: real]" by simp
  have tau: "cumtrapz [1, 1, 1] (map uminus [2, 1, 0]) = Inr [1, 2]" by code_simp
  have m: "3 / 10 < Min (set [1, 2 :: real])" by simp
  from tau_levels_must_be_bracketed[OF h c len tau] m
  have "get_tau_levels rh_uniform 0 0 0 = Inl ValueError" by blast
  with h c len tau m show ?thesis by blast
qed

section \<open>Uniform grids, rounding and monotone columns\<close>





lemma np_around_cases:
  "np_around v = \<lfloor>v\<rfloor> \<and> v - of_int \<lfloor>v\<rfloor> \<le> 1 / 2
   \<or> np_around v = \<lfloor>v\<rfloor> + 1 \<and> 1 / 2 \<le> v - of_int \<lfloor>v\<rfloor>"
  by (auto simp: np_around_def Let_def)

lemma np_around_nearest: "\<bar>of_int (np_around v) - v\<bar> \<le> \<bar>of_int j - v\<bar>"
proof -
  define f where "f = \<lfloor>v\<rfloor>"
  have fl: "of_int f \<le> v" "v < of_int f + 1"
    unfolding f_def by linarith+
  consider "j \<le> f" | "f + 1 \<le> j" by linarith
  then have far: "v - of_int f \<le> \<bar>of_int j - v\<bar> \<and> j \<le> f
                \<or> of_int f + 1 - v \<le> \<bar>of_int j - v\<bar> \<and> f + 1 \<le> j"
  proof cases
    case 1
    then have "(of_int j :: real) \<le> of_int f" by simp
    with fl 1 show ?thesis by linarith
  next
    case 2
    then have "(of_int f :: real) + 1 \<le> of_int j"
      by (metis of_int_1 of_int_add of_int_le_iff)
    with fl 2 show ?thesis by linarith
  qed
  from np_around_cases[of v] show ?thesis
  proof
    assume a: "np_around v = \<lfloor>v\<rfloor> \<and> v - of_int \<lfloor>v\<rfloor> \<le> 1 / 2"
    then have "\<bar>of_int (np_around v) - v\<bar> = v - of_int f"
      using fl by (simp add: f_def)
    with a far fl show ?thesis unfolding f_def by linarith
  next
    assume a: "np_around v = \<lfloor>v\<rfloor> + 1 \<and> 1 / 2 \<le> v - of_int \<lfloor>v\<rfloor>"
    then have "\<bar>of_int (np_around v) - v\<bar> = of_int f + 1 - v"
      using fl by (simp add: f_def)
    with a far fl show ?thesis unfolding f_def by linarith
  qed
qed




lemma insort_key_last:
  "\<forall>y \<in> set ys. f y < f x \<Longrightarrow> insort_key f x ys = ys @ [x]"
  by (induction ys) auto

lemma sort_key_decreasing:
  "sorted_wrt (\<lambda>a b. f b < f a) xs \<Longrightarrow> sort_key f xs = rev xs"
  by (induction xs) (auto simp: insort_key_last)

lemma tau_at_Suc:
  "spec_tau_at c h (Suc k) = spec_tau_at c h k + (c ! k + c ! Suc k) / 2 * (h ! k - h ! Suc k)"
  by (simp add: spec_tau_at_def)

lemma tau_at_increasing:
  assumes len: "length c = length h"
    and dec: "sorted_wrt (>) h"
    and chi: "\<forall>v \<in> set c. 0 < v"
    and k: "Suc k < length h"
  shows "spec_tau_at c h k < spec_tau_at c h (Suc k)"
proof -
  from dec k have "h ! Suc k < h ! k"
    by (simp add: sorted_wrt_iff_nth_less)
  moreover from chi k len have "0 < c ! k" "0 < c ! Suc k"
    by simp_all
  ultimately have "0 < (c ! k + c ! Suc k) / 2 * (h ! k - h ! Suc k)"
    by simp
  then show ?thesis by (simp add: tau_at_Suc)
qed

lemma tau_at_strict_mono:
  assumes len: "length c = length h"
    and dec: "sorted_wrt (>) h"
    and chi: "\<forall>v \<in> set c. 0 < v"
  shows "i < j \<Longrightarrow> j < length h \<Longrightarrow> spec_tau_at c h i < spec_tau_at c h j"
proof (induction j)
  case 0
  then show ?case by simp
next
  case (Suc j)
  have step: "spec_tau_at c h j < spec_tau_at c h (Suc j)"
    using len dec chi Suc.prems(2) by (rule tau_at_increasing)
  show ?case
  proof (cases "i = j")
    case True
    with step show ?thesis by simp
  next
    case False
    with Suc.prems have "i < j" "j < length h" by simp_all
    then have "spec_tau_at c h i < spec_tau_at c h j" by (rule Suc.IH)
    with step show ?thesis by simp
  qed
qed

lemma tau0_strictly_sorted:
  assumes len: "length c = length h"
    and dec: "sorted_wrt (>) h"
    and chi: "\<forall>v \<in> set c. 0 < v"
  shows "sorted_wrt (<) (map (spec_tau_at c h) [1 ..< length h])"
  unfolding sorted_wrt_iff_nth_less
  using tau_at_strict_mono[OF assms] by simp

text \<open>
  C3.  For a column the specification covers (heights falling strictly from the outer
  point inwards, absorption coefficient positive), the values the locator integrates are
  the trapezoidal integrals of chi against \<open>- h\<close> from the outermost point, where the
  optical depth is zero, up to each further grid point.  A result it returns holds, for
  each of the three levels, the height \<open>z\<close> at which linear interpolation between two
  neighbouring grid points \<open>k\<close> and \<open>k + 1\<close> reaches the level, divided by \<open>10\<^sup>6\<close>, and the
  integer nearest to the index interpolated linearly at \<open>z\<close> between two neighbouring grid
  points \<open>m\<close> and \<open>m + 1\<close>.
\<close>

theorem tau_levels_by_trapezoid_and_interpolation:
  assumes h: "np_get2 (height_scale (rh_atmos rh)) x y = Inr h"
    and c: "np_col (chi (rh_ray rh)) x y w = Inr c"
    and len: "length c = length h"
    and dec: "sorted_wrt (>) h"
    and chi: "\<forall>v \<in> set c. 0 < v"
    and res: "get_tau_levels rh x y w = Inr (hv, idx)"
  shows "cumtrapz c (map uminus h) = Inr (map (spec_tau_at c h) [1 ..< length h])
       \<and> spec_tau_at c h 0 = 0
       \<and> length hv = 3 \<and> length idx = 3
       \<and> (\<forall>i < 3. \<exists>k m z fi.
             1 \<le> k \<and> Suc k < length h
           \<and> spec_tau_at c h k \<le> TAU_LEVELS ! i \<and> TAU_LEVELS ! i \<le> spec_tau_at c h (Suc k)
           \<and> z = h ! k + (h ! Suc k - h ! k) * (TAU_LEVELS ! i - spec_tau_at c h k)
                             / (spec_tau_at c h (Suc k) - spec_tau_at c h k)
           \<and> hv ! i = z / 1000000
           \<and> Suc m < length h \<and> h ! Suc m \<le> z \<and> z \<le> h ! m
           \<and> fi = real m + (h ! m - z) / (h ! m - h ! Suc m)
           \<and> idx ! i = np_around fi
           \<and> (\<forall>j. \<bar>of_int (idx ! i) - fi\<bar> \<le> \<bar>of_int j - fi\<bar>))"
proof -
  define N where "N = length h"
  define tau0 where "tau0 = map (spec_tau_at c h) [1 ..< length h]"
  define ar where "ar = map real [0 ..< length h]"
  define tab1 where "tab1 = sort_key fst (zip tau0 (tl h))"
  define tab2 where "tab2 = sort_key fst (zip h ar)"
  note ch = get_tau_levels_char[OF h c len, folded tau0_def, folded ar_def, folded tab1_def tab2_def]
  from res ch have l2: "2 \<le> length tau0"
    and inside: "\<forall>l \<in> set TAU_LEVELS. Min (set tau0) \<le> l \<and> l \<le> Max (set tau0)"
    and hv: "hv = map (\<lambda>v. v / 1000000) (map (call_linear tab1) TAU_LEVELS)"
    and idx: "idx = map np_around (map (call_linear tab2) (map (call_linear tab1) TAU_LEVELS))"
    by (simp_all split: if_splits)
  have lN: "length tau0 = N - 1" by (simp add: tau0_def N_def)
  have N3: "3 \<le> N" using l2 lN by simp
  have hne: "h \<noteq> []" using N3 by (auto simp: N_def)
  have ct: "cumtrapz c (map uminus h) = Inr tau0"
    using cumtrapz_spec[OF len] hne by (simp add: tau0_def)
  \<comment> \<open>the first table: optical depth against height\<close>
  have st: "sorted_wrt (<) tau0"
    unfolding tau0_def using len dec chi by (rule tau0_strictly_sorted)
  then have sorted0: "sorted tau0" by (rule strict_sorted_imp_sorted)
  have l0: "length tau0 = length (tl h)" by (simp add: tau0_def)
  have t1: "tab1 = zip tau0 (tl h)"
    unfolding tab1_def using sorted0 l0 by (intro sort_key_id_if_sorted) simp
  have f1: "map fst tab1 = tau0" unfolding t1 using l0 by simp
  have n1: "2 \<le> length tab1" unfolding t1 using l2 l0 by simp
  have tne: "tau0 \<noteq> []" using l2 by auto
  have lo1: "tau0 ! 0 = Min (set tau0)" using sorted0 tne by (rule sorted_nth0_Min)
  have hi1: "last tau0 = Max (set tau0)" using sorted0 tne by (rule sorted_last_Max)
  have p1: "tab1 ! j = (spec_tau_at c h (Suc j), h ! Suc j)" if "j < N - 1" for j
    unfolding t1 using that l0 lN by (simp add: tau0_def nth_tl N_def)
  \<comment> \<open>the second table: height against index, in ascending order of height\<close>
  have la: "length ar = length h" by (simp add: ar_def)
  have "sorted_wrt (\<lambda>a b. fst b < fst a) (zip h ar)"
    using dec la by (simp add: sorted_wrt_iff_nth_less)
  then have t2: "tab2 = rev (zip h ar)"
    unfolding tab2_def by (rule sort_key_decreasing)
  have n2: "2 \<le> length tab2" unfolding t2 using N3 la by (simp add: N_def)
  have s2: "sorted (map fst tab2)" unfolding tab2_def by (rule sorted_sort_key)
  have f2: "map fst tab2 = sort h"
    unfolding tab2_def using la[symmetric] by (rule table_abscissae)
  have sne: "sort h \<noteq> []" using hne by (metis set_empty set_sort)
  have lo2: "map fst tab2 ! 0 = Min (set h)"
    unfolding f2 using sorted_nth0_Min[of "sort h"] sne by simp
  have hi2: "last (map fst tab2) = Max (set h)"
    unfolding f2 using sorted_last_Max[of "sort h"] sne by simp
  have p2: "tab2 ! j = (h ! (N - 1 - j), real (N - 1 - j))" if "j < N" for j
    unfolding t2 using that la by (simp add: rev_nth ar_def N_def)
  have level: "\<exists>k m z fi.
             1 \<le> k \<and> Suc k < length h
           \<and> spec_tau_at c h k \<le> TAU_LEVELS ! i \<and> TAU_LEVELS ! i \<le> spec_tau_at c h (Suc k)
           \<and> z = h ! k + (h ! Suc k - h ! k) * (TAU_LEVELS ! i - spec_tau_at c h k)
                             / (spec_tau_at c h (Suc k) - spec_tau_at c h k)
           \<and> hv ! i = z / 1000000
           \<and> Suc m < length h \<and> h ! Suc m \<le> z \<and> z \<le> h ! m
           \<and> fi = real m + (h ! m - z) / (h ! m - h ! Suc m)
           \<and> idx ! i = np_around fi
           \<and> (\<forall>j. \<bar>of_int (idx ! i) - fi\<bar> \<le> \<bar>of_int j - fi\<bar>)"
    if i: "i < 3" for i
  proof -
    define L where "L = TAU_LEVELS ! i"
    have i3: "i < length TAU_LEVELS" using i by (simp add: TAU_LEVELS_def)
    then have Lin: "L \<in> set TAU_LEVELS" unfolding L_def by (rule nth_mem)
    with inside have b1: "map fst tab1 ! 0 \<le> L" "L \<le> last (map fst tab1)"
      unfolding f1 lo1 hi1 by simp_all
    have s1: "sorted (map fst tab1)" unfolding f1 by (rule sorted0)
    from call_linear_segment[OF s1 n1 b1] obtain k where
        k: "1 \<le> k" "k < length tab1" "fst (tab1 ! (k - 1)) \<le> L" "L \<le> fst (tab1 ! k)"
      and e1: "call_linear tab1 L
            = (snd (tab1 ! k) - snd (tab1 ! (k - 1))) / (fst (tab1 ! k) - fst (tab1 ! (k - 1)))
                * (L - fst (tab1 ! (k - 1))) + snd (tab1 ! (k - 1))"
      by blast
    have kN: "k < N - 1" "k - 1 < N - 1" "Suc (k - 1) = k" "Suc k < N"
      using k(1,2) lN l0 by (simp_all add: t1)
    define z where "z = call_linear tab1 L"
    have pk: "tab1 ! k = (spec_tau_at c h (Suc k), h ! Suc k)"
      using kN(1) by (rule p1)
    have pk1: "tab1 ! (k - 1) = (spec_tau_at c h k, h ! k)"
      using p1[OF kN(2)] kN(3) by simp
    have br: "spec_tau_at c h k \<le> L" "L \<le> spec_tau_at c h (Suc k)"
      using k(3,4) unfolding pk pk1 by simp_all
    have zeq: "z = h ! k + (h ! Suc k - h ! k) * (L - spec_tau_at c h k)
                      / (spec_tau_at c h (Suc k) - spec_tau_at c h k)"
      unfolding z_def e1 pk pk1 by simp
    \<comment> \<open>the crossing height lies between the two grid heights\<close>
    have zb: "min (h ! k) (h ! Suc k) \<le> z" "z \<le> max (h ! k) (h ! Suc k)"
      using convex_between[OF br, of "h ! k" "h ! Suc k"]
      unfolding z_def e1 pk pk1 by simp_all
    have "h ! k \<in> set h" "h ! Suc k \<in> set h"
      using kN(4) by (simp_all add: N_def)
    then have "Min (set h) \<le> h ! k" "Min (set h) \<le> h ! Suc k"
        "h ! k \<le> Max (set h)" "h ! Suc k \<le> Max (set h)"
      by simp_all
    with zb have b2: "map fst tab2 ! 0 \<le> z" "z \<le> last (map fst tab2)"
      unfolding lo2 hi2 by (simp_all add: min_def max_def split: if_splits)
    from call_linear_segment[OF s2 n2 b2] obtain q where
        q: "1 \<le> q" "q < length tab2" "fst (tab2 ! (q - 1)) \<le> z" "z \<le> fst (tab2 ! q)"
      and e2: "call_linear tab2 z
            = (snd (tab2 ! q) - snd (tab2 ! (q - 1))) / (fst (tab2 ! q) - fst (tab2 ! (q - 1)))
                * (z - fst (tab2 ! (q - 1))) + snd (tab2 ! (q - 1))"
      by blast
    define m where "m = N - 1 - q"
    have qN: "q < N" "q - 1 < N" "N - 1 - (q - 1) = Suc m" "Suc m < N"
      using q(1,2) la by (simp_all add: t2 N_def m_def)
    have pq: "tab2 ! q = (h ! m, real m)"
      using p2[OF qN(1)] by (simp add: m_def)
    have pq1: "tab2 ! (q - 1) = (h ! Suc m, real (Suc m))"
      using p2[OF qN(2)] qN(3) by simp
    have zm: "h ! Suc m \<le> z" "z \<le> h ! m"
      using q(3,4) unfolding pq pq1 by simp_all
    have hm: "h ! Suc m < h ! m"
      using dec qN(4) by (simp add: sorted_wrt_iff_nth_less N_def)
    define fi where "fi = real m + (h ! m - z) / (h ! m - h ! Suc m)"
    have "call_linear tab2 z
        = (real m - real (Suc m)) / (h ! m - h ! Suc m) * (z - h ! Suc m) + real (Suc m)"
      unfolding e2 pq pq1 by simp
    also have "\<dots> = fi"
      using hm unfolding fi_def by (simp add: field_simps)
    finally have e2': "call_linear tab2 z = fi" .
    have hvi: "hv ! i = z / 1000000"
      unfolding hv z_def L_def using i3 by simp
    have idxi: "idx ! i = np_around fi"
      unfolding idx e2'[symmetric] z_def L_def using i3 by simp
    have near: "\<forall>j. \<bar>of_int (idx ! i) - fi\<bar> \<le> \<bar>of_int j - fi\<bar>"
      unfolding idxi by (simp add: np_around_nearest)
    from k(1) kN(4) br zeq hvi qN(4) zm idxi near show ?thesis
      unfolding L_def N_def fi_def by blast
  qed
  have "length hv = 3" "length idx = 3"
    unfolding hv idx by (simp_all add: TAU_LEVELS_def)
  moreover have "spec_tau_at c h 0 = 0" by (simp add: spec_tau_at_def)
  ultimately show ?thesis
    using ct level unfolding tau0_def by blast
qed

theorem tau_levels_by_trapezoid_and_interpolation_witness:
  "np_get2 (height_scale (rh_atmos rh_column)) 0 0 = Inr [10, 98 / 10, 0]
   \<and> np_col (chi (rh_ray rh_column)) 0 0 0 = Inr [1, 1, 1]
   \<and> length [1, 1, 1 :: real] = length [10, 98 / 10, 0 :: real]
   \<and> sorted_wrt (>) [10, 98 / 10, 0 :: real]
   \<and> list_all (\<lambda>v. 0 < v) [1, 1, 1 :: real]
   \<and> get_tau_levels rh_column 0 0 0
        = Inr ([97 / 10000000, 9 / 1000000, 7 / 1000000], [1, 1, 1])
   \<and> cumtrapz [1, 1, 1] (map uminus [10, 98 / 10, 0])
        = Inr (map (spec_tau_at [1, 1, 1] [10, 98 / 10, 0]) [1 ..< length [10, 98 / 10, 0 :: real]])
   \<and> spec_tau_at [1, 1, 1] [10, 98 / 10, 0] 0 = 0"
proof -
  have h: "np_get2 (height_scale (rh_atmos rh_column)) 0 0 = Inr [10, 98 / 10, 0]"
    by code_simp
  have c: "np_col (chi (rh_ray rh_column)) 0 0 0 = Inr [1, 1, 1]" by code_simp
  have len: "length [1, 1, 1 :: real] = length [10, 98 / 10, 0 :: real]" by simp
  have dec: "sorted_wrt (>) [10, 98 / 10, 0 :: real]" by simp
  have chi: "\<forall>v \<in> set [1, 1, 1 :: real]. 0 < v" by simp
  have res: "get_tau_levels rh_column 0 0 0
        = Inr ([97 / 10000000, 9 / 1000000, 7 / 1000000], [1, 1, 1])"
    by code_simp
  from tau_levels_by_trapezoid_and_interpolation[OF h c len dec chi res]
  have "cumtrapz [1, 1, 1] (map uminus [10, 98 / 10, 0])
        = Inr (map (spec_tau_at [1, 1, 1] [10, 98 / 10, 0]) [1 ..< length [10, 98 / 10, 0 :: real]])"
    and "spec_tau_at [1, 1, 1] [10, 98 / 10, 0] 0 = 0"
    by blast+
  moreover have "list_all (\<lambda>v. 0 < v) [1, 1, 1 :: real]" by simp
  ultimately show ?thesis using h c len dec res by blast
qed




end
